theory Spec2Isabelle
  imports Main "HOL-Library.AList" "HOL-Library.Sublist"
begin

section \<open>Values of the resolver's input\<close>

text \<open>
  The generated GraphQL types give every optional argument the type
  \<^verbatim>\<open>InputMaybe<T> | undefined\<close>, that is \<^verbatim>\<open>T | null | undefined\<close>.  The resolver
  tells the three apart (\<^verbatim>\<open>args.skip === null\<close>, \<^verbatim>\<open>args.skip === undefined\<close>), so
  the model keeps all three.
\<close>

datatype 'a maybe = Undefined | Null | Val 'a

text \<open>
  JavaScript truthiness, as the guards \<^verbatim>\<open>if (where.f)\<close> and \<^verbatim>\<open>if (args.first)\<close> use
  it.  The result is the value the guarded block then reads: a string is truthy
  unless it is empty, an array is always truthy (also the empty one), a number is
  truthy unless it is zero, and \<^verbatim>\<open>null\<close> and \<^verbatim>\<open>undefined\<close> are falsy.
\<close>

fun truthy_str :: "string maybe \<Rightarrow> string option" where
  "truthy_str (Val s) = (if s = [] then None else Some s)"
| "truthy_str Null = None"
| "truthy_str Undefined = None"

fun truthy_list :: "string list maybe \<Rightarrow> string list option" where
  "truthy_list (Val xs) = Some xs"
| "truthy_list Null = None"
| "truthy_list Undefined = None"

fun truthy_int :: "int maybe \<Rightarrow> int option" where
  "truthy_int (Val n) = (if n = 0 then None else Some n)"
| "truthy_int Null = None"
| "truthy_int Undefined = None"

text \<open>
  \<^verbatim>\<open>UserWhereInput\<close> (declared in \<^verbatim>\<open>types/generatedGraphQLTypes\<close>): the fields that
  \<^verbatim>\<open>getInputArg\<close> reads.  \<^verbatim>\<open>ID\<close> and \<^verbatim>\<open>String\<close> scalars are strings.  The field
  \<^verbatim>\<open>id\<close> is written \<open>id'\<close> here.
\<close>

record UserWhereInput =
  id' :: "string maybe"
  id_not :: "string maybe"
  id_in :: "string list maybe"
  id_not_in :: "string list maybe"
  firstName :: "string maybe"
  firstName_not :: "string maybe"
  firstName_in :: "string list maybe"
  firstName_not_in :: "string list maybe"
  firstName_contains :: "string maybe"
  firstName_starts_with :: "string maybe"
  lastName :: "string maybe"
  lastName_not :: "string maybe"
  lastName_in :: "string list maybe"
  lastName_not_in :: "string list maybe"
  lastName_contains :: "string maybe"
  lastName_starts_with :: "string maybe"
  email :: "string maybe"
  email_not :: "string maybe"
  email_in :: "string list maybe"
  email_not_in :: "string list maybe"
  email_contains :: "string maybe"
  email_starts_with :: "string maybe"
  appLanguageCode :: "string maybe"
  appLanguageCode_not :: "string maybe"
  appLanguageCode_in :: "string list maybe"
  appLanguageCode_not_in :: "string list maybe"
  appLanguageCode_contains :: "string maybe"
  appLanguageCode_starts_with :: "string maybe"
  admin_for :: "string maybe"
  event_title_contains :: "string maybe"

section \<open>The filter object built for the store\<close>

text \<open>
  The value \<^verbatim>\<open>getInputArg\<close> stores under a key of the filter object:
  \<^item> \<open>Value v\<close> is the bare value \<^verbatim>\<open>v\<close> (equality);
  \<^item> \<open>Ne v\<close>, \<open>In vs\<close>, \<open>Nin vs\<close> are \<^verbatim>\<open>{$ne: v}\<close>, \<^verbatim>\<open>{$in: vs}\<close>, \<^verbatim>\<open>{$nin: vs}\<close>;
  \<^item> \<open>Regex p opts\<close> is \<^verbatim>\<open>{$regex: p, $options: opts}\<close>;
  \<^item> \<open>RegExp src flags\<close> is the object \<^verbatim>\<open>new RegExp(src)\<close>, whose flags are empty
    when the constructor gets one argument;
  \<^item> \<open>SubDoc v\<close> is \<^verbatim>\<open>{_id: v}\<close>.
\<close>

datatype cond =
    Value string
  | Ne string
  | In "string list"
  | Nin "string list"
  | Regex string string
  | RegExp string string
  | SubDoc string

type_synonym obj = "(string \<times> cond) list"

text \<open>
  What the code throws: \<open>ThrownString\<close> is the bare string of line 31,
  \<open>ThrownError\<close> the \<^verbatim>\<open>Error\<close> of line 66, and \<open>SyntaxError\<close> what \<^verbatim>\<open>new RegExp\<close>
  throws on a pattern it cannot compile.
\<close>

datatype thrown =
    ThrownString string
  | ThrownError string
  | SyntaxError string

text \<open>
  \<^verbatim>\<open>new RegExp(src)\<close>.  Whether \<open>src\<close> compiles is decided by the JavaScript engine,
  which is not part of the repository: \<open>compiles\<close> stands for that check.
\<close>

definition new_RegExp :: "(string \<Rightarrow> bool) \<Rightarrow> string \<Rightarrow> thrown + cond" where
  "new_RegExp compiles src = (if compiles src then Inr (RegExp src []) else Inl (SyntaxError src))"

text \<open>
  One block of \<^verbatim>\<open>getInputArg\<close>,
  \<^verbatim>\<open>if (guard) { inputArg = { ...inputArg, key: value } }\<close>, once its guard and its
  value are evaluated: \<open>None\<close> when the guard is falsy, otherwise the key and the
  value (or what computing the value threw).
\<close>

type_synonym block = "(string \<times> (thrown + cond)) option"

definition guarded :: "'a option \<Rightarrow> string \<Rightarrow> ('a \<Rightarrow> thrown + cond) \<Rightarrow> block" where
  "guarded guard key val = (case guard of None \<Rightarrow> None | Some v \<Rightarrow> Some (key, val v))"

text \<open>
  Running the blocks in order on \<open>inputArg\<close>.  The spread
  \<^verbatim>\<open>{ ...inputArg, key: value }\<close> keeps the keys of \<open>inputArg\<close> in their order,
  replaces the value of \<open>key\<close> where it is already there and appends it otherwise:
  this is \<^const>\<open>AList.update\<close>.  An exception ends the run.
\<close>

fun run :: "block list \<Rightarrow> obj \<Rightarrow> thrown + obj" where
  "run [] inputArg = Inr inputArg"
| "run (None # bs) inputArg = run bs inputArg"
| "run (Some (key, Inl e) # bs) inputArg = Inl e"
| "run (Some (key, Inr v) # bs) inputArg = run bs (AList.update key v inputArg)"

text \<open>The blocks of \<^verbatim>\<open>getInputArg\<close>, lines 106 to 392, in the order of the source.\<close>

definition getInputArg_blocks :: "(string \<Rightarrow> bool) \<Rightarrow> UserWhereInput \<Rightarrow> block list" where
  "getInputArg_blocks compiles w =
   [ guarded (truthy_str (id' w)) ''_id'' (\<lambda>v. Inr (Value v)),
     guarded (truthy_str (id_not w)) ''_id'' (\<lambda>v. Inr (Ne v)),
     guarded (truthy_list (id_in w)) ''_id'' (\<lambda>vs. Inr (In vs)),
     guarded (truthy_list (id_not_in w)) ''_id'' (\<lambda>vs. Inr (Nin vs)),
     guarded (truthy_str (firstName w)) ''firstName'' (\<lambda>v. Inr (Value v)),
     guarded (truthy_str (firstName_not w)) ''firstName'' (\<lambda>v. Inr (Ne v)),
     guarded (truthy_list (firstName_in w)) ''firstName'' (\<lambda>vs. Inr (In vs)),
     guarded (truthy_list (firstName_not_in w)) ''firstName'' (\<lambda>vs. Inr (Nin vs)),
     guarded (truthy_str (firstName_contains w)) ''firstName'' (\<lambda>v. Inr (Regex v ''i'')),
     guarded (truthy_str (firstName_starts_with w)) ''firstName'' (\<lambda>v. new_RegExp compiles (''^'' @ v)),
     guarded (truthy_str (lastName w)) ''lastName'' (\<lambda>v. Inr (Value v)),
     guarded (truthy_str (lastName_not w)) ''lastName'' (\<lambda>v. Inr (Ne v)),
     guarded (truthy_list (lastName_in w)) ''lastName'' (\<lambda>vs. Inr (In vs)),
     guarded (truthy_list (lastName_not_in w)) ''lastName'' (\<lambda>vs. Inr (Nin vs)),
     guarded (truthy_str (lastName_contains w)) ''lastName'' (\<lambda>v. Inr (Regex v ''i'')),
     guarded (truthy_str (lastName_starts_with w)) ''lastName'' (\<lambda>v. new_RegExp compiles (''^'' @ v)),
     guarded (truthy_str (email w)) ''email'' (\<lambda>v. Inr (Value v)),
     guarded (truthy_str (email_not w)) ''email'' (\<lambda>v. Inr (Ne v)),
     guarded (truthy_list (email_in w)) ''email'' (\<lambda>vs. Inr (In vs)),
     guarded (truthy_list (email_not_in w)) ''email'' (\<lambda>vs. Inr (Nin vs)),
     guarded (truthy_str (email_contains w)) ''email'' (\<lambda>v. Inr (Regex v ''i'')),
     guarded (truthy_str (email_starts_with w)) ''email'' (\<lambda>v. new_RegExp compiles (''^'' @ v)),
     guarded (truthy_str (appLanguageCode w)) ''appLanguageCode'' (\<lambda>v. Inr (Value v)),
     guarded (truthy_str (appLanguageCode_not w)) ''appLanguageCode'' (\<lambda>v. Inr (Ne v)),
     guarded (truthy_list (appLanguageCode_in w)) ''appLanguageCode'' (\<lambda>vs. Inr (In vs)),
     guarded (truthy_list (appLanguageCode_not_in w)) ''appLanguageCode'' (\<lambda>vs. Inr (Nin vs)),
     guarded (truthy_str (appLanguageCode_contains w)) ''appLanguageCode'' (\<lambda>v. Inr (Regex v ''i'')),
     guarded (truthy_str (appLanguageCode_starts_with w)) ''appLanguageCode''
       (\<lambda>v. new_RegExp compiles (''^'' @ v)),
     guarded (truthy_str (admin_for w)) ''adminFor'' (\<lambda>v. Inr (SubDoc v)),
     guarded (truthy_str (event_title_contains w)) ''registeredEvents.title'' (\<lambda>v. Inr (Regex v ''i'')) ]"

text \<open>
  \<^verbatim>\<open>getInputArg\<close>: the empty object when \<^verbatim>\<open>where\<close> is \<^verbatim>\<open>null\<close> or \<^verbatim>\<open>undefined\<close>,
  otherwise the blocks run on the empty object.
\<close>

definition getInputArg :: "(string \<Rightarrow> bool) \<Rightarrow> UserWhereInput maybe \<Rightarrow> thrown + obj" where
  "getInputArg compiles where' =
     (case where' of Val w \<Rightarrow> run (getInputArg_blocks compiles w) [] | _ \<Rightarrow> Inr [])"

section \<open>The resolver\<close>

text \<open>
  The arguments of the query.  \<^verbatim>\<open>orderBy\<close> is only handed to \<^verbatim>\<open>getSort\<close>, so its type
  is left open.
\<close>

record 'o args =
  orgId :: string
  where' :: "UserWhereInput maybe"
  orderBy :: 'o
  first :: "int maybe"
  skip :: "int maybe"

record resolver_context =
  apiRootUrl :: string

text \<open>
  \<^verbatim>\<open>paginateOptions\<close> (lines 34 to 45), and the options \<^verbatim>\<open>User.paginate\<close> gets: the
  same object with \<^verbatim>\<open>populate\<close> and \<^verbatim>\<open>select\<close> added (lines 55 to 59).  A key the
  object literal does not have reads as \<open>Undefined\<close>.
\<close>

record 's paginateOptions =
  lean :: "bool maybe"
  sort :: 's
  pagination :: bool
  page :: "int maybe"
  limit :: "int maybe"

record 's storeOptions = "'s paginateOptions" +
  populate :: "string list"
  select :: "string list"

text \<open>Values of a document's fields and of the members the resolver returns.\<close>

datatype jsv =
    JUndefined
  | JNull
  | JBool bool
  | JNum int
  | JStr string
  | JArr "jsv list"
  | JObj "(string \<times> jsv) list"

text \<open>
  A document of \<^verbatim>\<open>usersModel.docs\<close>, as the resolver reads it: \<open>props\<close> are its own
  enumerable properties (what \<^verbatim>\<open>...user\<close> copies), \<open>image'\<close> is what \<^verbatim>\<open>user.image\<close>
  returns (a string, \<^verbatim>\<open>null\<close> or \<^verbatim>\<open>undefined\<close> by the user schema) and \<open>doc'\<close> what
  \<^verbatim>\<open>user._doc\<close> returns (the raw object of a hydrated document, \<^verbatim>\<open>undefined\<close> on a
  lean one).
\<close>

record doc =
  props :: "(string \<times> jsv) list"
  image' :: "string maybe"
  doc' :: "(string \<times> jsv) list maybe"

text \<open>
  What \<^verbatim>\<open>User.paginate\<close> resolves to: the fields the resolver reads.  The field
  \<^verbatim>\<open>page\<close> is written \<open>page_no\<close>.
\<close>

record usersModel =
  docs :: "doc list"
  hasNextPage :: bool
  hasPrevPage :: bool
  totalPages :: int
  nextPage :: "int maybe"
  prevPage :: "int maybe"
  page_no :: "int maybe"
  totalDocs :: int

text \<open>
  The object the resolver returns (lines 86 to 99).  The fields \<^verbatim>\<open>hasNextPage\<close> and
  \<^verbatim>\<open>totalPages\<close> of \<^verbatim>\<open>pageInfo\<close> are written with a prime, \<^verbatim>\<open>aggregate.count\<close> is
  \<open>aggregate_count\<close>.
\<close>

record pageInfo =
  hasNextPage' :: bool
  hasPreviousPage :: bool
  totalPages' :: int
  nextPageNo :: "int maybe"
  prevPageNo :: "int maybe"
  currPageNo :: "int maybe"

record connection =
  pageInfo :: pageInfo
  edges :: "(string \<times> jsv) list list"
  aggregate_count :: int

text \<open>
  The object spread \<^verbatim>\<open>{ ...target, ...source }\<close>: the properties of \<open>source\<close> are
  set on \<open>target\<close> one after the other.
\<close>

definition spread :: "('k \<times> 'v) list \<Rightarrow> ('k \<times> 'v) list \<Rightarrow> ('k \<times> 'v) list" where
  "spread target source = fold (\<lambda>(k, v). AList.update k v) source target"

text \<open>The first argument of \<^verbatim>\<open>User.paginate\<close>, lines 49 to 54.\<close>

definition paginate_filter :: "string \<Rightarrow> obj \<Rightarrow> obj" where
  "paginate_filter org inputArg = spread [(''joinedOrganizations'', SubDoc org)] inputArg"

text \<open>
  \<^verbatim>\<open>user.image ? `${context.apiRootUrl}${user.image}` : null\<close>, lines 72 and 80.
\<close>

definition image_url :: "resolver_context \<Rightarrow> doc \<Rightarrow> jsv" where
  "image_url ctx user =
     (case truthy_str (image' user) of
        Some path \<Rightarrow> JStr (apiRootUrl ctx @ path)
      | None \<Rightarrow> JNull)"

text \<open>The two callbacks of \<^verbatim>\<open>usersModel.docs.map\<close>: lines 69 to 75 and 77 to 83.\<close>

definition map_paged :: "resolver_context \<Rightarrow> doc \<Rightarrow> (string \<times> jsv) list" where
  "map_paged ctx user =
     AList.update ''password'' JNull (AList.update ''image'' (image_url ctx user) (props user))"

definition map_unpaged :: "resolver_context \<Rightarrow> doc \<Rightarrow> (string \<times> jsv) list" where
  "map_unpaged ctx user =
     AList.update ''password'' JNull
       (AList.update ''image'' (image_url ctx user)
          (case doc' user of Val raw \<Rightarrow> raw | _ \<Rightarrow> []))"

text \<open>Lines 86 to 99.\<close>

definition connection_of :: "usersModel \<Rightarrow> (string \<times> jsv) list list \<Rightarrow> connection" where
  "connection_of m users =
     \<lparr> pageInfo = \<lparr> hasNextPage' = hasNextPage m, hasPreviousPage = hasPrevPage m,
                    totalPages' = totalPages m, nextPageNo = nextPage m,
                    prevPageNo = prevPage m, currPageNo = page_no m \<rparr>,
       edges = users,
       aggregate_count = totalDocs m \<rparr>"

text \<open>Lines 29 to 46: the pagination options, or the string thrown at line 31.\<close>

definition paginate_options :: "'s \<Rightarrow> 'o args \<Rightarrow> thrown + 's paginateOptions" where
  "paginate_options srt args =
     (case truthy_int (first args) of
        Some n \<Rightarrow>
          if skip args = Null
          then Inl (ThrownString ''Missing Skip parameter. Set it to either 0 or some other value'')
          else Inr \<lparr> lean = Val True, sort = srt, pagination = True,
                     page = skip args, limit = first args \<rparr>
      | None \<Rightarrow>
          Inr \<lparr> lean = Undefined, sort = srt, pagination = False,
                page = Undefined, limit = Undefined \<rparr>)"

text \<open>
  How a call of the resolver ends: it throws, the promise of \<^verbatim>\<open>User.paginate\<close>
  rejects (and the rejection passes through the \<^verbatim>\<open>await\<close>), or it resolves to a
  connection.
\<close>

datatype 'e outcome =
    Throws thrown
  | Rejects 'e
  | Resolves connection

text \<open>
  \<^verbatim>\<open>organizationsMemberConnection\<close>.  Its collaborators are parameters:
  \<open>getSort\<close> (\<^verbatim>\<open>helperFunctions/getSort\<close>), \<open>compiles\<close> (the engine's check of a
  pattern) and \<open>paginate\<close> (\<^verbatim>\<open>User.paginate\<close>, which resolves to \<open>Inr\<close> or rejects
  with \<open>Inl\<close>).  The result is how the call ends, together with the calls of
  \<^verbatim>\<open>User.paginate\<close> it has made, in order.
\<close>

definition organizationsMemberConnection ::
  "('o \<Rightarrow> 's) \<Rightarrow> (string \<Rightarrow> bool) \<Rightarrow> (obj \<Rightarrow> 's storeOptions \<Rightarrow> 'e + usersModel)
     \<Rightarrow> 'o args \<Rightarrow> resolver_context \<Rightarrow> 'e outcome \<times> (obj \<times> 's storeOptions) list" where
  "organizationsMemberConnection getSort compiles paginate args ctx =
     (case getInputArg compiles (where' args) of
        Inl e \<Rightarrow> (Throws e, [])
      | Inr inputArg \<Rightarrow>
          (case paginate_options (getSort (orderBy args)) args of
             Inl e \<Rightarrow> (Throws e, [])
           | Inr paginateOptions \<Rightarrow>
               (let query = paginate_filter (orgId args) inputArg;
                    options = \<lparr> lean = lean paginateOptions, sort = sort paginateOptions,
                                pagination = pagination paginateOptions,
                                page = page paginateOptions, limit = limit paginateOptions,
                                populate = [''registeredEvents''], select = [''-password''] \<rparr>;
                    calls = [(query, options)]
                in case paginate query options of
                     Inl e \<Rightarrow> (Rejects e, calls)
                   | Inr m \<Rightarrow>
                       if pagination paginateOptions
                       then (if skip args = Undefined
                             then (Throws (ThrownError ''Skip parameter is missing''), calls)
                             else (Resolves (connection_of m (map (map_paged ctx) (docs m))), calls))
                       else (Resolves (connection_of m (map (map_unpaged ctx) (docs m))), calls))))"

section \<open>What a filter value asks of a field\<close>

text \<open>
  Modelled from the spec: the store that evaluates the filter object
  (\<^verbatim>\<open>User.paginate\<close> of \<^verbatim>\<open>models\<close>, and the database behind it) is no part of the
  source.  Section 3 of the specification names the predicates a filter value
  stands for: equals, not-equals, member-of and not-member-of a set, substring
  match and prefix match.  \<open>holds c x\<close> is that meaning for the value \<open>x\<close> of a
  string field.  Whether a pattern ignores case is read from its flags, as the
  pattern language has it: under the flag \<^verbatim>\<open>i\<close> it does, under no flag it does not.
  A pattern is read only where every character of it stands for itself (letters,
  digits and the punctuation of \<open>plain_chars\<close>) after an optional leading \<^verbatim>\<open>^\<close>,
  only under no flag or the flag \<^verbatim>\<open>i\<close>, and under \<^verbatim>\<open>i\<close> only on an ASCII value;
  \<open>None\<close> is every other case.
\<close>

definition upper_case :: string where
  "upper_case = ''ABCDEFGHIJKLMNOPQRSTUVWXYZ''"

definition lower_case :: string where
  "lower_case = ''abcdefghijklmnopqrstuvwxyz''"

definition plain_chars :: string where
  "plain_chars = upper_case @ lower_case @ ''0123456789 _-@/:,;!#%&=<>~''"

definition plain :: "string \<Rightarrow> bool" where
  "plain t = list_all (\<lambda>c. c \<in> set plain_chars) t"

definition to_lower :: "char \<Rightarrow> char" where
  "to_lower c = (case map_of (zip upper_case lower_case) c of Some l \<Rightarrow> l | None \<Rightarrow> c)"

fun occurs_in :: "string \<Rightarrow> string \<Rightarrow> bool" where
  "occurs_in t [] = (t = [])"
| "occurs_in t (c # cs) = (prefix t (c # cs) \<or> occurs_in t cs)"

definition ascii :: "char \<Rightarrow> bool" where
  "ascii c = (\<not> digit7 c)"

definition regex_test :: "string \<Rightarrow> string \<Rightarrow> string \<Rightarrow> bool option" where
  "regex_test src flags x =
     (if flags \<noteq> [] \<and> flags \<noteq> ''i'' then None
      else if flags = ''i'' \<and> \<not> list_all ascii x then None
      else let fold_case = (if flags = ''i'' then map to_lower else (\<lambda>s. s))
           in case src of
                [] \<Rightarrow> Some True
              | c # t \<Rightarrow>
                  if c = CHR ''^''
                  then (if plain t then Some (prefix (fold_case t) (fold_case x)) else None)
                  else (if plain src then Some (occurs_in (fold_case src) (fold_case x)) else None))"

fun holds :: "cond \<Rightarrow> string \<Rightarrow> bool option" where
  "holds (Value v) x = Some (x = v)"
| "holds (Ne v) x = Some (x \<noteq> v)"
| "holds (In vs) x = Some (x \<in> set vs)"
| "holds (Nin vs) x = Some (x \<notin> set vs)"
| "holds (Regex p opts) x = regex_test p opts x"
| "holds (RegExp src flags) x = regex_test src flags x"
| "holds (SubDoc v) x = None"

text \<open>
  A record whose field \<open>key\<close> has the value \<open>x\<close> passes the filter object on that
  field when the object has no entry for the key or the entry holds of \<open>x\<close>.
\<close>

definition passes :: "obj \<Rightarrow> string \<Rightarrow> string \<Rightarrow> bool option" where
  "passes q key x = (case map_of q key of None \<Rightarrow> Some True | Some c \<Rightarrow> holds c x)"

section \<open>The operators of a field\<close>

text \<open>
  The five fields with several operators, the key \<^verbatim>\<open>getInputArg\<close> writes for each,
  and the field of \<^verbatim>\<open>where\<close> it reads for each operator.  \<^verbatim>\<open>getInputArg\<close> reads no
  \<^verbatim>\<open>id_contains\<close> and no \<^verbatim>\<open>id_starts_with\<close>.
\<close>

datatype field = Id | FirstName | LastName | Email | AppLanguageCode

fun key_of :: "field \<Rightarrow> string" where
  "key_of Id = ''_id''"
| "key_of FirstName = ''firstName''"
| "key_of LastName = ''lastName''"
| "key_of Email = ''email''"
| "key_of AppLanguageCode = ''appLanguageCode''"

fun eq_of :: "field \<Rightarrow> UserWhereInput \<Rightarrow> string maybe" where
  "eq_of Id w = id' w"
| "eq_of FirstName w = firstName w"
| "eq_of LastName w = lastName w"
| "eq_of Email w = email w"
| "eq_of AppLanguageCode w = appLanguageCode w"

fun not_of :: "field \<Rightarrow> UserWhereInput \<Rightarrow> string maybe" where
  "not_of Id w = id_not w"
| "not_of FirstName w = firstName_not w"
| "not_of LastName w = lastName_not w"
| "not_of Email w = email_not w"
| "not_of AppLanguageCode w = appLanguageCode_not w"

fun in_of :: "field \<Rightarrow> UserWhereInput \<Rightarrow> string list maybe" where
  "in_of Id w = id_in w"
| "in_of FirstName w = firstName_in w"
| "in_of LastName w = lastName_in w"
| "in_of Email w = email_in w"
| "in_of AppLanguageCode w = appLanguageCode_in w"

fun not_in_of :: "field \<Rightarrow> UserWhereInput \<Rightarrow> string list maybe" where
  "not_in_of Id w = id_not_in w"
| "not_in_of FirstName w = firstName_not_in w"
| "not_in_of LastName w = lastName_not_in w"
| "not_in_of Email w = email_not_in w"
| "not_in_of AppLanguageCode w = appLanguageCode_not_in w"

fun contains_of :: "field \<Rightarrow> UserWhereInput \<Rightarrow> string maybe" where
  "contains_of Id w = Undefined"
| "contains_of FirstName w = firstName_contains w"
| "contains_of LastName w = lastName_contains w"
| "contains_of Email w = email_contains w"
| "contains_of AppLanguageCode w = appLanguageCode_contains w"

fun starts_with_of :: "field \<Rightarrow> UserWhereInput \<Rightarrow> string maybe" where
  "starts_with_of Id w = Undefined"
| "starts_with_of FirstName w = firstName_starts_with w"
| "starts_with_of LastName w = lastName_starts_with w"
| "starts_with_of Email w = email_starts_with w"
| "starts_with_of AppLanguageCode w = appLanguageCode_starts_with w"

text \<open>
  The conditions of the operators a filter gives for a field, in the order eq,
  not, in, not_in, contains, starts_with: one per operator whose value is truthy.
\<close>

definition given :: "field \<Rightarrow> UserWhereInput \<Rightarrow> cond list" where
  "given f w =
     (case truthy_str (eq_of f w) of None \<Rightarrow> [] | Some v \<Rightarrow> [Value v]) @
     (case truthy_str (not_of f w) of None \<Rightarrow> [] | Some v \<Rightarrow> [Ne v]) @
     (case truthy_list (in_of f w) of None \<Rightarrow> [] | Some vs \<Rightarrow> [In vs]) @
     (case truthy_list (not_in_of f w) of None \<Rightarrow> [] | Some vs \<Rightarrow> [Nin vs]) @
     (case truthy_str (contains_of f w) of None \<Rightarrow> [] | Some t \<Rightarrow> [Regex t ''i'']) @
     (case truthy_str (starts_with_of f w) of None \<Rightarrow> [] | Some t \<Rightarrow> [RegExp (''^'' @ t) []])"

text \<open>Every starts_with term a filter gives compiles once \<^verbatim>\<open>^\<close> is put before it.\<close>

definition patterns_ok :: "(string \<Rightarrow> bool) \<Rightarrow> UserWhereInput \<Rightarrow> bool" where
  "patterns_ok compiles w =
     list_all (\<lambda>f. case truthy_str (starts_with_of f w) of
                      None \<Rightarrow> True | Some t \<Rightarrow> compiles (''^'' @ t))
       [FirstName, LastName, Email, AppLanguageCode]"

text \<open>The values the blocks assign to a key, in order, and whether a block throws.\<close>

fun assigned :: "string \<Rightarrow> block list \<Rightarrow> cond list" where
  "assigned k [] = []"
| "assigned k (None # bs) = assigned k bs"
| "assigned k (Some (key, Inl e) # bs) = assigned k bs"
| "assigned k (Some (key, Inr v) # bs) = (if key = k then v # assigned k bs else assigned k bs)"

fun throws :: "block \<Rightarrow> bool" where
  "throws None = False"
| "throws (Some (key, Inl e)) = True"
| "throws (Some (key, Inr v)) = False"

section \<open>The predicate builder as a whole\<close>

text \<open>
  What the specification calls \<open>build(orgId, filter)\<close>: \<^verbatim>\<open>getInputArg\<close> followed by the
  object literal of lines 49 to 54, which puts the membership in the organization
  before the entries of \<open>inputArg\<close>.
\<close>

definition store_filter :: "(string \<Rightarrow> bool) \<Rightarrow> string \<Rightarrow> UserWhereInput maybe \<Rightarrow> thrown + obj" where
  "store_filter compiles org filter' =
     (case getInputArg compiles filter' of
        Inl e \<Rightarrow> Inl e
      | Inr inputArg \<Rightarrow> Inr (paginate_filter org inputArg))"

text \<open>A field of the filter is not set: it is \<^verbatim>\<open>undefined\<close> or \<^verbatim>\<open>null\<close>.\<close>

definition unset :: "'a maybe \<Rightarrow> bool" where
  "unset m = (case m of Val v \<Rightarrow> False | _ \<Rightarrow> True)"

definition no_fields_set :: "UserWhereInput \<Rightarrow> bool" where
  "no_fields_set w \<longleftrightarrow>
     unset (id' w) \<and> unset (id_not w) \<and> unset (id_in w) \<and> unset (id_not_in w) \<and>
     unset (firstName w) \<and> unset (firstName_not w) \<and> unset (firstName_in w) \<and>
     unset (firstName_not_in w) \<and> unset (firstName_contains w) \<and>
     unset (firstName_starts_with w) \<and>
     unset (lastName w) \<and> unset (lastName_not w) \<and> unset (lastName_in w) \<and>
     unset (lastName_not_in w) \<and> unset (lastName_contains w) \<and>
     unset (lastName_starts_with w) \<and>
     unset (email w) \<and> unset (email_not w) \<and> unset (email_in w) \<and>
     unset (email_not_in w) \<and> unset (email_contains w) \<and> unset (email_starts_with w) \<and>
     unset (appLanguageCode w) \<and> unset (appLanguageCode_not w) \<and>
     unset (appLanguageCode_in w) \<and> unset (appLanguageCode_not_in w) \<and>
     unset (appLanguageCode_contains w) \<and> unset (appLanguageCode_starts_with w) \<and>
     unset (admin_for w) \<and> unset (event_title_contains w)"

text \<open>The filter is absent, or present with no field set.\<close>

definition no_filter :: "UserWhereInput maybe \<Rightarrow> bool" where
  "no_filter filter' = (case filter' of Val w \<Rightarrow> no_fields_set w | _ \<Rightarrow> True)"

text \<open>
  The keys of the object handed to the store, in the order in which the source
  writes them first, and the position of a key in that order.
\<close>

definition key_order :: "string list" where
  "key_order = [''joinedOrganizations'', ''_id'', ''firstName'', ''lastName'', ''email'',
                ''appLanguageCode'', ''adminFor'', ''registeredEvents.title'']"

definition rank :: "string \<Rightarrow> nat" where
  "rank k = length (takeWhile (\<lambda>k'. k' \<noteq> k) key_order)"

text \<open>An object has its keys in that order, each at most once.\<close>

definition in_key_order :: "obj \<Rightarrow> bool" where
  "in_key_order q \<longleftrightarrow>
     sorted_wrt (\<lambda>a b. rank a < rank b) (map fst q) \<and> set (map fst q) \<subseteq> set key_order"

text \<open>
  The blocks that assign write keys of \<open>key_order\<close>, never one that comes before
  the key of an earlier block or before position \<open>n\<close>.
\<close>

fun ordered :: "nat \<Rightarrow> block list \<Rightarrow> bool" where
  "ordered n [] = True"
| "ordered n (None # bs) = ordered n bs"
| "ordered n (Some (key, v) # bs) = (n \<le> rank key \<and> key \<in> set key_order \<and> ordered (rank key) bs)"

section \<open>Sample inputs\<close>

text \<open>A filter with every field \<^verbatim>\<open>undefined\<close>; the examples set fields of it.\<close>

definition empty_where :: UserWhereInput where
  "empty_where =
     \<lparr> id' = Undefined, id_not = Undefined, id_in = Undefined, id_not_in = Undefined,
       firstName = Undefined, firstName_not = Undefined, firstName_in = Undefined,
       firstName_not_in = Undefined, firstName_contains = Undefined,
       firstName_starts_with = Undefined,
       lastName = Undefined, lastName_not = Undefined, lastName_in = Undefined,
       lastName_not_in = Undefined, lastName_contains = Undefined,
       lastName_starts_with = Undefined,
       email = Undefined, email_not = Undefined, email_in = Undefined,
       email_not_in = Undefined, email_contains = Undefined, email_starts_with = Undefined,
       appLanguageCode = Undefined, appLanguageCode_not = Undefined,
       appLanguageCode_in = Undefined, appLanguageCode_not_in = Undefined,
       appLanguageCode_contains = Undefined, appLanguageCode_starts_with = Undefined,
       admin_for = Undefined, event_title_contains = Undefined \<rparr>"

text \<open>
  A pattern check for the examples: it accepts a pattern made of plain characters
  after an optional leading \<^verbatim>\<open>^\<close>.  Every engine compiles these, and the examples
  use no other pattern.
\<close>

definition compiles_plain :: "string \<Rightarrow> bool" where
  "compiles_plain src = (case src of [] \<Rightarrow> True | c # t \<Rightarrow> if c = CHR ''^'' then plain t else plain src)"

text \<open>
  A store for the examples: two documents, the first with an image path and the
  second without image, both with a password hash; \<open>lean_docs\<close> as a query with
  \<^verbatim>\<open>lean: true\<close> returns them, \<open>hydrated_docs\<close> as it returns them otherwise.  The
  store answers every query with them, as one page of two.
\<close>

definition lean_docs :: "doc list" where
  "lean_docs =
     [ \<lparr> props = [(''firstName'', JStr ''Ada''), (''image'', JStr ''/u1.png''),
                  (''password'', JStr ''hash1'')],
         image' = Val ''/u1.png'', doc' = Undefined \<rparr>,
       \<lparr> props = [(''firstName'', JStr ''Bob''), (''image'', JNull),
                  (''password'', JStr ''hash2'')],
         image' = Null, doc' = Undefined \<rparr> ]"

definition hydrated_docs :: "doc list" where
  "hydrated_docs =
     [ \<lparr> props = [(''$isNew'', JBool False)],
         image' = Val ''/u1.png'',
         doc' = Val [(''firstName'', JStr ''Ada''), (''image'', JStr ''/u1.png''),
                     (''password'', JStr ''hash1'')] \<rparr>,
       \<lparr> props = [(''$isNew'', JBool False)],
         image' = Null,
         doc' = Val [(''firstName'', JStr ''Bob''), (''image'', JNull),
                     (''password'', JStr ''hash2'')] \<rparr> ]"

definition sample_paginate :: "obj \<Rightarrow> unit storeOptions \<Rightarrow> unit + usersModel" where
  "sample_paginate query options =
     Inr \<lparr> docs = (if lean options = Val True then lean_docs else hydrated_docs),
           hasNextPage = False, hasPrevPage = False, totalPages = 1,
           nextPage = Null, prevPage = Null, page_no = Val 1, totalDocs = 2 \<rparr>"

definition sample_args :: "unit args" where
  "sample_args =
     \<lparr> orgId = ''org1'', where' = Undefined, orderBy = (), first = Undefined, skip = Undefined \<rparr>"

definition sample_context :: resolver_context where
  "sample_context = \<lparr> apiRootUrl = ''https://api.example.com'' \<rparr>"

section \<open>Running the blocks\<close>

lemma run_lookup:
  "run bs acc = Inr q \<Longrightarrow>
   map_of q k = (if assigned k bs = [] then map_of acc k else Some (last (assigned k bs)))"
proof (induction bs acc arbitrary: q rule: run.induct)
  case (4 key v bs inputArg)
  then show ?case by (simp add: update_conv')
qed simp_all

lemma run_returns: "(\<exists>q. run bs acc = Inr q) = (\<forall>b \<in> set bs. \<not> throws b)"
  by (induction bs acc rule: run.induct) simp_all

lemma throws_guarded:
  "throws (guarded g k val) = (case g of None \<Rightarrow> False | Some v \<Rightarrow> isl (val v))"
  by (cases g; cases "val (the g)") (simp_all add: guarded_def)

lemma throws_guarded_Inr [simp]: "throws (guarded g k (\<lambda>v. Inr (c v))) = False"
  by (simp add: throws_guarded split: option.split)

lemma throws_guarded_RegExp [simp]:
  "throws (guarded g k (\<lambda>v. new_RegExp compiles (p v))) =
     (case g of None \<Rightarrow> False | Some v \<Rightarrow> \<not> compiles (p v))"
  by (simp add: throws_guarded new_RegExp_def split: option.split)

lemma blocks_throw:
  "(\<forall>b \<in> set (getInputArg_blocks compiles w). \<not> throws b) = patterns_ok compiles w"
  unfolding getInputArg_blocks_def patterns_ok_def
  by (simp split: option.split)

lemma getInputArg_returns:
  "(\<exists>q. getInputArg compiles (Val w) = Inr q) = patterns_ok compiles w"
  by (simp add: getInputArg_def run_returns blocks_throw)

lemma assigned_guarded_Inr [simp]:
  "assigned k (guarded g key (\<lambda>v. Inr (c v)) # bs) =
     (if key = k then (case g of None \<Rightarrow> [] | Some v \<Rightarrow> [c v]) @ assigned k bs else assigned k bs)"
  by (cases g) (simp_all add: guarded_def)

lemma assigned_guarded_RegExp [simp]:
  "assigned k (guarded g key (\<lambda>v. new_RegExp compiles (p v)) # bs) =
     (if key = k
      then (case g of None \<Rightarrow> [] | Some v \<Rightarrow> if compiles (p v) then [RegExp (p v) []] else [])
             @ assigned k bs
      else assigned k bs)"
  by (cases g) (simp_all add: guarded_def new_RegExp_def)

lemma assigned_blocks:
  "patterns_ok compiles w \<Longrightarrow> assigned (key_of f) (getInputArg_blocks compiles w) = given f w"
  unfolding getInputArg_blocks_def patterns_ok_def given_def
  by (cases f) (auto split: option.splits)

lemma getInputArg_lookup:
  assumes "getInputArg compiles (Val w) = Inr q"
  shows "map_of q (key_of f) = (if given f w = [] then None else Some (last (given f w)))"
proof -
  from assms have ok: "patterns_ok compiles w"
    using getInputArg_returns by blast
  from assms have "run (getInputArg_blocks compiles w) [] = Inr q"
    by (simp add: getInputArg_def)
  from run_lookup [OF this, of "key_of f"] show ?thesis
    by (simp add: assigned_blocks [OF ok])
qed

lemmas regex_eval =
  regex_test_def plain_def plain_chars_def upper_case_def lower_case_def to_lower_def
  compiles_plain_def ascii_def

section \<open>The order of the keys\<close>

lemma rank_values:
  "rank ''joinedOrganizations'' = 0" "rank ''_id'' = 1" "rank ''firstName'' = 2"
  "rank ''lastName'' = 3" "rank ''email'' = 4" "rank ''appLanguageCode'' = 5"
  "rank ''adminFor'' = 6" "rank ''registeredEvents.title'' = 7"
  by (simp_all add: rank_def key_order_def)

lemma rank_inj: "k \<in> set key_order \<Longrightarrow> k' \<in> set key_order \<Longrightarrow> rank k = rank k' \<Longrightarrow> k = k'"
  unfolding key_order_def set_simps insert_iff empty_iff
  by (elim disjE; simp only: rank_values; simp)

lemma update_fresh: "k \<notin> fst ` set al \<Longrightarrow> AList.update k v al = al @ [(k, v)]"
  by (induction al) auto

lemma update_in_key_order:
  assumes "in_key_order acc" "k \<in> set key_order" "\<forall>k' \<in> fst ` set acc. rank k' \<le> rank k"
  shows "in_key_order (AList.update k v acc)"
proof (cases "k \<in> fst ` set acc")
  case True
  with assms(1) show ?thesis by (simp add: in_key_order_def update_keys)
next
  case False
  have "rank k' < rank k" if "k' \<in> fst ` set acc" for k'
  proof -
    from that assms(3) have "rank k' \<le> rank k" by blast
    moreover from that assms(1) have "k' \<in> set key_order" by (auto simp: in_key_order_def)
    moreover from that False have "k' \<noteq> k" by blast
    ultimately show ?thesis using rank_inj [OF _ assms(2)] by (metis le_neq_implies_less)
  qed
  with assms(1,2) False show ?thesis
    by (auto simp: in_key_order_def update_keys sorted_wrt_append)
qed

lemma ordered_mono: "ordered n bs \<Longrightarrow> m \<le> n \<Longrightarrow> ordered m bs"
  by (induction n bs rule: ordered.induct) auto

lemma ordered_guarded:
  "n \<le> rank k \<Longrightarrow> k \<in> set key_order \<Longrightarrow> ordered (rank k) bs \<Longrightarrow> ordered n (guarded g k val # bs)"
  by (cases g) (auto simp: guarded_def intro: ordered_mono)

lemma run_in_key_order:
  "run bs acc = Inr q \<Longrightarrow> ordered n bs \<Longrightarrow> in_key_order acc \<Longrightarrow>
   \<forall>k' \<in> fst ` set acc. rank k' \<le> n \<Longrightarrow> in_key_order q"
proof (induction bs acc arbitrary: q n rule: run.induct)
  case (4 key v bs inputArg)
  from "4.prems" have k: "n \<le> rank key" "key \<in> set key_order" "ordered (rank key) bs"
    by simp_all
  from "4.prems"(4) k(1) have le: "\<forall>k' \<in> fst ` set inputArg. rank k' \<le> rank key"
    by fastforce
  have "in_key_order (AList.update key v inputArg)"
    using "4.prems"(3) k(2) le by (rule update_in_key_order)
  moreover have "\<forall>k' \<in> fst ` set (AList.update key v inputArg). rank k' \<le> rank key"
    using le by (auto simp: dom_update)
  ultimately show ?case using "4.IH" [OF _ k(3)] "4.prems"(1) by simp
qed auto

lemma blocks_ordered: "ordered 1 (getInputArg_blocks compiles w)"
  unfolding getInputArg_blocks_def
  by (rule ordered_guarded, simp add: rank_values, simp add: key_order_def)+ simp

lemma in_key_order_Nil: "in_key_order []"
  by (simp add: in_key_order_def)

lemma getInputArg_in_key_order:
  assumes "getInputArg compiles wh = Inr q"
  shows "in_key_order q"
proof (cases wh)
  case (Val w)
  with assms have "run (getInputArg_blocks compiles w) [] = Inr q"
    by (simp add: getInputArg_def)
  then show ?thesis
    by (rule run_in_key_order [OF _ blocks_ordered in_key_order_Nil]) simp
qed (use assms in \<open>simp_all add: getInputArg_def in_key_order_Nil\<close>)

lemma getInputArg_no_membership:
  assumes "getInputArg compiles wh = Inr q"
  shows "map_of q ''joinedOrganizations'' = None"
proof (cases wh)
  case (Val w)
  with assms have r: "run (getInputArg_blocks compiles w) [] = Inr q"
    by (simp add: getInputArg_def)
  have "assigned ''joinedOrganizations'' (getInputArg_blocks compiles w) = []"
    by (simp add: getInputArg_blocks_def)
  with run_lookup [OF r, of "''joinedOrganizations''"] show ?thesis by simp
qed (use assms in \<open>simp_all add: getInputArg_def\<close>)

lemma spread_disjoint:
  "distinct (map fst s) \<Longrightarrow> fst ` set t \<inter> fst ` set s = {} \<Longrightarrow> spread t s = t @ s"
proof (induction s arbitrary: t)
  case Nil
  then show ?case by (simp add: spread_def)
next
  case (Cons a s)
  obtain k v where a: "a = (k, v)" by (cases a)
  from Cons.prems a have fresh: "k \<notin> fst ` set t" by auto
  have "spread t (a # s) = spread (t @ [(k, v)]) s"
    by (simp add: spread_def a update_fresh [OF fresh])
  also have "\<dots> = (t @ [(k, v)]) @ s"
    using Cons.prems a by (intro Cons.IH) auto
  finally show ?case by (simp add: a)
qed

lemma in_key_order_distinct: "in_key_order q \<Longrightarrow> distinct (map fst q)"
  unfolding in_key_order_def
  by (induction q) auto

lemma paginate_filter_Cons:
  assumes "getInputArg compiles wh = Inr q"
  shows "paginate_filter org q = (''joinedOrganizations'', SubDoc org) # q"
proof -
  have "''joinedOrganizations'' \<notin> fst ` set q"
    using getInputArg_no_membership [OF assms] by (simp add: map_of_eq_None_iff)
  then show ?thesis
    unfolding paginate_filter_def
    using spread_disjoint [of q "[(''joinedOrganizations'', SubDoc org)]"]
      in_key_order_distinct [OF getInputArg_in_key_order [OF assms]]
    by simp
qed

section \<open>No filter\<close>

lemma unset_truthy_str [simp]: "unset m \<Longrightarrow> truthy_str m = None"
  by (cases m) (simp_all add: unset_def)

lemma unset_truthy_list [simp]: "unset m \<Longrightarrow> truthy_list m = None"
  by (cases m) (simp_all add: unset_def)

lemma guarded_None [simp]: "guarded None k val = None"
  by (simp add: guarded_def)

lemma getInputArg_no_filter: "no_filter wh \<Longrightarrow> getInputArg compiles wh = Inr []"
  by (cases wh) (simp_all add: no_filter_def no_fields_set_def getInputArg_def getInputArg_blocks_def)

lemma paginate_filter_Nil: "paginate_filter org [] = [(''joinedOrganizations'', SubDoc org)]"
  by (simp add: paginate_filter_def spread_def)

lemma resolver_calls:
  assumes "c \<in> set (snd (organizationsMemberConnection getSort compiles paginate args ctx))"
  shows "store_filter compiles (orgId args) (where' args) = Inr (fst c)"
  using assms
  by (auto simp: organizationsMemberConnection_def store_filter_def Let_def
           split: sum.splits if_splits)

text \<open>
  C5: when the filter is absent, or present with no field set, the predicate
  built for the store is the membership in the organization \<open>orgId\<close> and nothing
  else, and every call of \<^verbatim>\<open>User.paginate\<close> the resolver makes gets exactly that
  predicate.
\<close>

theorem no_filter_base_predicate:
  assumes "no_filter (where' args)"
  shows "store_filter compiles (orgId args) (where' args)
           = Inr [(''joinedOrganizations'', SubDoc (orgId args))]
       \<and> (\<forall>c \<in> set (snd (organizationsMemberConnection getSort compiles paginate args ctx)).
             fst c = [(''joinedOrganizations'', SubDoc (orgId args))])"
proof -
  have b: "store_filter compiles (orgId args) (where' args)
             = Inr [(''joinedOrganizations'', SubDoc (orgId args))]"
    by (simp add: store_filter_def getInputArg_no_filter [OF assms] paginate_filter_Nil)
  moreover have "fst c = [(''joinedOrganizations'', SubDoc (orgId args))]"
    if "c \<in> set (snd (organizationsMemberConnection getSort compiles paginate args ctx))" for c
    using resolver_calls [OF that] b by simp
  ultimately show ?thesis by blast
qed

lemma sample_unpaged:
  "organizationsMemberConnection id compiles_plain sample_paginate
     (sample_args\<lparr>where' := Val empty_where\<rparr>) sample_context =
   (Resolves
     \<lparr>pageInfo =
        \<lparr>hasNextPage' = False, hasPreviousPage = False, totalPages' = 1,
           nextPageNo = Null, prevPageNo = Null, currPageNo = Val 1\<rparr>,
      edges =
        [[(''firstName'', JStr ''Ada''),
          (''image'', JStr ''https://api.example.com/u1.png''),
          (''password'', JNull)],
         [(''firstName'', JStr ''Bob''), (''image'', JNull),
          (''password'', JNull)]],
      aggregate_count = 2\<rparr>,
    [([(''joinedOrganizations'', SubDoc ''org1'')],
      \<lparr>lean = Undefined, sort = (), pagination = False, page = Undefined,
         limit = Undefined, populate = [''registeredEvents''],
         select = [''-password'']\<rparr>)])"
  by (simp add: organizationsMemberConnection_def getInputArg_def getInputArg_blocks_def
      empty_where_def sample_args_def sample_context_def sample_paginate_def
      paginate_options_def paginate_filter_def spread_def connection_of_def
      map_unpaged_def image_url_def hydrated_docs_def)

theorem no_filter_base_predicate_witness:
  "no_filter (where' (sample_args\<lparr>where' := Val empty_where\<rparr>))
   \<and> store_filter compiles_plain ''org1'' (Val empty_where)
        = Inr [(''joinedOrganizations'', SubDoc ''org1'')]
   \<and> map fst (snd (organizationsMemberConnection id compiles_plain sample_paginate
        (sample_args\<lparr>where' := Val empty_where\<rparr>) sample_context))
        = [[(''joinedOrganizations'', SubDoc ''org1'')]]"
proof -
  have h: "no_filter (where' (sample_args\<lparr>where' := Val empty_where\<rparr>))"
    by (simp add: no_filter_def no_fields_set_def unset_def empty_where_def)
  have o: "orgId (sample_args\<lparr>where' := Val empty_where\<rparr>) = ''org1''"
    by (simp add: sample_args_def)
  from no_filter_base_predicate [OF h, of compiles_plain id sample_paginate sample_context]
  show ?thesis using h by (simp add: sample_unpaged o)
qed

section \<open>Pagination and the members returned\<close>

lemma run_throws: "run bs acc = Inl e \<Longrightarrow> \<exists>k. Some (k, Inl e) \<in> set bs"
  by (induction bs acc rule: run.induct) auto

lemma guarded_Inr_not_Inl [simp]:
  "(Some (k, Inl e) = guarded g key (\<lambda>v. Inr (c v))) = False"
  by (cases g) (simp_all add: guarded_def)

lemma guarded_RegExp_Inl [simp]:
  "(Some (k, Inl e) = guarded g key (\<lambda>v. new_RegExp compiles (p v))) =
     (\<exists>v. g = Some v \<and> k = key \<and> \<not> compiles (p v) \<and> e = SyntaxError (p v))"
  by (cases g) (auto simp: guarded_def new_RegExp_def)

lemma getInputArg_throws:
  assumes "getInputArg compiles wh = Inl e"
  shows "\<exists>src. e = SyntaxError src"
proof (cases wh)
  case (Val w)
  with assms have "run (getInputArg_blocks compiles w) [] = Inl e"
    by (simp add: getInputArg_def)
  from run_throws [OF this] obtain k
    where "Some (k, Inl e) \<in> set (getInputArg_blocks compiles w)" ..
  then show ?thesis
    unfolding getInputArg_blocks_def by auto
qed (use assms in \<open>simp_all add: getInputArg_def\<close>)

lemma map_paged_lookup:
  "map_of (map_paged ctx user) ''password'' = Some JNull"
  "map_of (map_paged ctx user) ''image'' = Some (image_url ctx user)"
  by (simp_all add: map_paged_def update_conv')

lemma map_unpaged_lookup:
  "map_of (map_unpaged ctx user) ''password'' = Some JNull"
  "map_of (map_unpaged ctx user) ''image'' = Some (image_url ctx user)"
  by (simp_all add: map_unpaged_def update_conv')

lemma resolves_edges:
  assumes "organizationsMemberConnection getSort compiles paginate args ctx = (Resolves c, calls)"
  shows "\<exists>query options m. calls = [(query, options)] \<and> paginate query options = Inr m \<and>
           (edges c = map (map_paged ctx) (docs m) \<or> edges c = map (map_unpaged ctx) (docs m))"
  using assms
  by (auto simp: organizationsMemberConnection_def Let_def connection_of_def
           split: sum.splits if_splits)

lemma sample_paged:
  "organizationsMemberConnection id compiles_plain sample_paginate
     (sample_args\<lparr>first := Val 10, skip := Val 1\<rparr>) sample_context =
   (Resolves
     \<lparr>pageInfo =
        \<lparr>hasNextPage' = False, hasPreviousPage = False, totalPages' = 1,
           nextPageNo = Null, prevPageNo = Null, currPageNo = Val 1\<rparr>,
      edges =
        [[(''firstName'', JStr ''Ada''),
          (''image'', JStr ''https://api.example.com/u1.png''),
          (''password'', JNull)],
         [(''firstName'', JStr ''Bob''), (''image'', JNull),
          (''password'', JNull)]],
      aggregate_count = 2\<rparr>,
    [([(''joinedOrganizations'', SubDoc ''org1'')],
      \<lparr>lean = Val True, sort = (), pagination = True, page = Val 1,
         limit = Val 10, populate = [''registeredEvents''],
         select = [''-password'']\<rparr>)])"
  by (simp add: organizationsMemberConnection_def getInputArg_def
      sample_args_def sample_context_def sample_paginate_def
      paginate_options_def paginate_filter_def spread_def connection_of_def
      map_paged_def image_url_def lean_docs_def)

lemma sample_paged_no_skip:
  "organizationsMemberConnection id compiles_plain sample_paginate
     (sample_args\<lparr>first := Val 10\<rparr>) sample_context =
   (Throws (ThrownError ''Skip parameter is missing''),
    [([(''joinedOrganizations'', SubDoc ''org1'')],
      \<lparr>lean = Val True, sort = (), pagination = True, page = Undefined,
         limit = Val 10, populate = [''registeredEvents''],
         select = [''-password'']\<rparr>)])"
  by (simp add: organizationsMemberConnection_def getInputArg_def
      sample_args_def sample_context_def sample_paginate_def
      paginate_options_def paginate_filter_def spread_def)

lemma sample_zero_first:
  "organizationsMemberConnection id compiles_plain sample_paginate
     (sample_args\<lparr>first := Val 0, skip := sk\<rparr>) sample_context =
   (Resolves
     \<lparr>pageInfo =
        \<lparr>hasNextPage' = False, hasPreviousPage = False, totalPages' = 1,
           nextPageNo = Null, prevPageNo = Null, currPageNo = Val 1\<rparr>,
      edges =
        [[(''firstName'', JStr ''Ada''),
          (''image'', JStr ''https://api.example.com/u1.png''),
          (''password'', JNull)],
         [(''firstName'', JStr ''Bob''), (''image'', JNull),
          (''password'', JNull)]],
      aggregate_count = 2\<rparr>,
    [([(''joinedOrganizations'', SubDoc ''org1'')],
      \<lparr>lean = Undefined, sort = (), pagination = False, page = Undefined,
         limit = Undefined, populate = [''registeredEvents''],
         select = [''-password'']\<rparr>)])"
  by (simp add: organizationsMemberConnection_def getInputArg_def
      sample_args_def sample_context_def sample_paginate_def
      paginate_options_def paginate_filter_def spread_def connection_of_def
      map_unpaged_def image_url_def hydrated_docs_def)

lemma sample_null_skip:
  "organizationsMemberConnection id compiles_plain sample_paginate
     (sample_args\<lparr>first := Val 10, skip := Null\<rparr>) sample_context =
   (Throws (ThrownString ''Missing Skip parameter. Set it to either 0 or some other value''), [])"
  by (simp add: organizationsMemberConnection_def getInputArg_def sample_args_def
      paginate_options_def)

text \<open>
  C3: a request with a page size and no page number is to fail in the validation,
  before the store is reached.  The resolver does so when \<^verbatim>\<open>skip\<close> is \<^verbatim>\<open>null\<close> (line
  30).  When \<^verbatim>\<open>skip\<close> is left out (\<^verbatim>\<open>undefined\<close>) it does not: with \<^verbatim>\<open>first = 10\<close> and
  no \<^verbatim>\<open>skip\<close> it calls \<^verbatim>\<open>User.paginate\<close> once, with \<^verbatim>\<open>page\<close> undefined, and throws only
  afterwards, at line 66.
\<close>

theorem missing_skip_after_store:
  "organizationsMemberConnection id compiles_plain sample_paginate
     (sample_args\<lparr>first := Val 10\<rparr>) sample_context =
   (Throws (ThrownError ''Skip parameter is missing''),
    [([(''joinedOrganizations'', SubDoc ''org1'')],
      \<lparr>lean = Val True, sort = (), pagination = True, page = Undefined,
         limit = Val 10, populate = [''registeredEvents''],
         select = [''-password'']\<rparr>)])
   \<and> organizationsMemberConnection id compiles_plain sample_paginate
       (sample_args\<lparr>first := Val 10, skip := Null\<rparr>) sample_context =
     (Throws (ThrownString ''Missing Skip parameter. Set it to either 0 or some other value''), [])"
  by (simp add: sample_paged_no_skip sample_null_skip)

text \<open>
  With \<^verbatim>\<open>skip = null\<close> and a truthy \<^verbatim>\<open>first\<close> the resolver throws without any call of
  \<^verbatim>\<open>User.paginate\<close>: the string of line 31, unless \<^verbatim>\<open>getInputArg\<close> has thrown before.
\<close>

lemma null_skip_before_store:
  assumes "first args = Val n" and "n \<noteq> 0" and "skip args = Null"
  shows "organizationsMemberConnection getSort compiles paginate args ctx =
           (Throws (case getInputArg compiles (where' args) of
                      Inl e \<Rightarrow> e
                    | Inr inputArg \<Rightarrow>
                        ThrownString ''Missing Skip parameter. Set it to either 0 or some other value''),
            [])"
  using assms
  by (simp add: organizationsMemberConnection_def paginate_options_def split: sum.splits)

lemma map_unpaged_entries:
  "map_of (map_unpaged ctx user) k =
     (if k = ''password'' then Some JNull
      else if k = ''image''
      then Some (case image' user of
                   Val path \<Rightarrow> if path = [] then JNull else JStr (apiRootUrl ctx @ path)
                 | _ \<Rightarrow> JNull)
      else map_of (case doc' user of Val raw \<Rightarrow> raw | _ \<Rightarrow> []) k)"
  by (cases "image' user") (simp_all add: map_unpaged_def update_conv' image_url_def)

lemma sample_bad_pattern:
  "organizationsMemberConnection id compiles_plain sample_paginate
     (sample_args\<lparr>where' := Val (empty_where\<lparr>firstName_starts_with := Val ''+''\<rparr>),
                   first := Val 0\<rparr>) sample_context =
   (Throws (SyntaxError ''^+''), [])"
  by (simp add: organizationsMemberConnection_def getInputArg_def getInputArg_blocks_def
      guarded_def new_RegExp_def empty_where_def sample_args_def regex_eval)

text \<open>
  C10, as stated, fails: with \<^verbatim>\<open>first = 0\<close> and a filter whose starts_with term does
  not compile as a pattern, the resolver ends with an error, the \<^verbatim>\<open>SyntaxError\<close> of
  \<^verbatim>\<open>new RegExp\<close>, and returns no member.
\<close>

theorem zero_first_counterexample:
  "first (sample_args\<lparr>where' := Val (empty_where\<lparr>firstName_starts_with := Val ''+''\<rparr>),
                       first := Val 0\<rparr>) = Val 0
   \<and> organizationsMemberConnection id compiles_plain sample_paginate
     (sample_args\<lparr>where' := Val (empty_where\<lparr>firstName_starts_with := Val ''+''\<rparr>),
                   first := Val 0\<rparr>) sample_context =
   (Throws (SyntaxError ''^+''), [])"
  by (simp add: sample_bad_pattern)

text \<open>
  C10, amended: with \<^verbatim>\<open>first = 0\<close> the resolver throws neither the string of line 31
  nor the error of line 66, whatever \<^verbatim>\<open>skip\<close> is.  When \<^verbatim>\<open>getInputArg\<close> returns, it
  calls \<^verbatim>\<open>User.paginate\<close> exactly once: with the membership in the organization
  followed by the entries of the filter, and with \<^verbatim>\<open>pagination: false\<close>, no page and
  no limit.  When that call resolves, the resolver resolves: the page fields and
  the count are those of the store, and \<^verbatim>\<open>edges\<close> has one member for each document
  the store returned, in order, which holds \<^verbatim>\<open>null\<close> under \<^verbatim>\<open>password\<close>, the rewritten
  image under \<^verbatim>\<open>image\<close> and, under every other key, what the raw document holds.
\<close>

theorem zero_first_unpaged:
  assumes "first args = Val 0"
  shows "(\<forall>s. fst (organizationsMemberConnection getSort compiles paginate args ctx)
               \<noteq> Throws (ThrownString s))
       \<and> (\<forall>s. fst (organizationsMemberConnection getSort compiles paginate args ctx)
               \<noteq> Throws (ThrownError s))
       \<and> (\<forall>inputArg. getInputArg compiles (where' args) = Inr inputArg \<longrightarrow>
            snd (organizationsMemberConnection getSort compiles paginate args ctx) =
              [((''joinedOrganizations'', SubDoc (orgId args)) # inputArg,
                \<lparr> lean = Undefined, sort = getSort (orderBy args), pagination = False,
                  page = Undefined, limit = Undefined,
                  populate = [''registeredEvents''], select = [''-password''] \<rparr>)])
       \<and> (\<forall>inputArg m.
            getInputArg compiles (where' args) = Inr inputArg
            \<and> paginate ((''joinedOrganizations'', SubDoc (orgId args)) # inputArg)
                 \<lparr> lean = Undefined, sort = getSort (orderBy args), pagination = False,
                   page = Undefined, limit = Undefined,
                   populate = [''registeredEvents''], select = [''-password''] \<rparr> = Inr m
            \<longrightarrow> (\<exists>c. fst (organizationsMemberConnection getSort compiles paginate args ctx)
                        = Resolves c
                   \<and> pageInfo c =
                        \<lparr> hasNextPage' = hasNextPage m, hasPreviousPage = hasPrevPage m,
                          totalPages' = totalPages m, nextPageNo = nextPage m,
                          prevPageNo = prevPage m, currPageNo = page_no m \<rparr>
                   \<and> aggregate_count c = totalDocs m
                   \<and> list_all2
                        (\<lambda>user e. \<forall>k. map_of e k =
                           (if k = ''password'' then Some JNull
                            else if k = ''image''
                            then Some (case image' user of
                                         Val path \<Rightarrow>
                                           if path = [] then JNull
                                           else JStr (apiRootUrl ctx @ path)
                                       | _ \<Rightarrow> JNull)
                            else map_of (case doc' user of Val raw \<Rightarrow> raw | _ \<Rightarrow> []) k))
                        (docs m) (edges c)))"
proof (intro conjI allI impI)
  fix s
  show "fst (organizationsMemberConnection getSort compiles paginate args ctx)
          \<noteq> Throws (ThrownString s)"
    using assms
    by (auto simp: organizationsMemberConnection_def paginate_options_def Let_def
             split: sum.splits dest: getInputArg_throws)
  show "fst (organizationsMemberConnection getSort compiles paginate args ctx)
          \<noteq> Throws (ThrownError s)"
    using assms
    by (auto simp: organizationsMemberConnection_def paginate_options_def Let_def
             split: sum.splits dest: getInputArg_throws)
next
  fix inputArg
  assume g: "getInputArg compiles (where' args) = Inr inputArg"
  show "snd (organizationsMemberConnection getSort compiles paginate args ctx) =
              [((''joinedOrganizations'', SubDoc (orgId args)) # inputArg,
                \<lparr> lean = Undefined, sort = getSort (orderBy args), pagination = False,
                  page = Undefined, limit = Undefined,
                  populate = [''registeredEvents''], select = [''-password''] \<rparr>)]"
    using assms
    by (simp add: organizationsMemberConnection_def paginate_options_def Let_def g
          paginate_filter_Cons [OF g] split: sum.splits)
next
  fix inputArg m
  assume a: "getInputArg compiles (where' args) = Inr inputArg
            \<and> paginate ((''joinedOrganizations'', SubDoc (orgId args)) # inputArg)
                 \<lparr> lean = Undefined, sort = getSort (orderBy args), pagination = False,
                   page = Undefined, limit = Undefined,
                   populate = [''registeredEvents''], select = [''-password''] \<rparr> = Inr m"
  then have g: "getInputArg compiles (where' args) = Inr inputArg" by simp
  have r: "fst (organizationsMemberConnection getSort compiles paginate args ctx)
             = Resolves (connection_of m (map (map_unpaged ctx) (docs m)))"
    using assms a
    by (simp add: organizationsMemberConnection_def paginate_options_def Let_def
          paginate_filter_Cons [OF g])
  show "\<exists>c. fst (organizationsMemberConnection getSort compiles paginate args ctx)
                        = Resolves c
                   \<and> pageInfo c =
                        \<lparr> hasNextPage' = hasNextPage m, hasPreviousPage = hasPrevPage m,
                          totalPages' = totalPages m, nextPageNo = nextPage m,
                          prevPageNo = prevPage m, currPageNo = page_no m \<rparr>
                   \<and> aggregate_count c = totalDocs m
                   \<and> list_all2
                        (\<lambda>user e. \<forall>k. map_of e k =
                           (if k = ''password'' then Some JNull
                            else if k = ''image''
                            then Some (case image' user of
                                         Val path \<Rightarrow>
                                           if path = [] then JNull
                                           else JStr (apiRootUrl ctx @ path)
                                       | _ \<Rightarrow> JNull)
                            else map_of (case doc' user of Val raw \<Rightarrow> raw | _ \<Rightarrow> []) k))
                        (docs m) (edges c)"
    by (rule exI [of _ "connection_of m (map (map_unpaged ctx) (docs m))"])
       (simp add: r connection_of_def list_all2_map2 list_all2_same map_unpaged_entries)
qed

lemma sample_zero_first_filtered:
  "organizationsMemberConnection id compiles_plain sample_paginate
     (sample_args\<lparr>where' := Val (empty_where\<lparr>firstName := Val ''Ada''\<rparr>),
                   first := Val 0\<rparr>) sample_context =
   (Resolves
     \<lparr>pageInfo =
        \<lparr>hasNextPage' = False, hasPreviousPage = False, totalPages' = 1,
           nextPageNo = Null, prevPageNo = Null, currPageNo = Val 1\<rparr>,
      edges =
        [[(''firstName'', JStr ''Ada''),
          (''image'', JStr ''https://api.example.com/u1.png''),
          (''password'', JNull)],
         [(''firstName'', JStr ''Bob''), (''image'', JNull),
          (''password'', JNull)]],
      aggregate_count = 2\<rparr>,
    [([(''joinedOrganizations'', SubDoc ''org1''), (''firstName'', Value ''Ada'')],
      \<lparr>lean = Undefined, sort = (), pagination = False, page = Undefined,
         limit = Undefined, populate = [''registeredEvents''],
         select = [''-password'']\<rparr>)])"
  by (simp add: organizationsMemberConnection_def getInputArg_def getInputArg_blocks_def
      guarded_def empty_where_def
      sample_args_def sample_context_def sample_paginate_def
      paginate_options_def paginate_filter_def spread_def connection_of_def
      map_unpaged_def image_url_def hydrated_docs_def)

theorem zero_first_unpaged_witness:
  "first (sample_args\<lparr>where' := Val (empty_where\<lparr>firstName := Val ''Ada''\<rparr>),
                       first := Val 0\<rparr>) = Val 0
   \<and> getInputArg compiles_plain (Val (empty_where\<lparr>firstName := Val ''Ada''\<rparr>))
       = Inr [(''firstName'', Value ''Ada'')]
   \<and> map doc' (docs (case sample_paginate
          [(''joinedOrganizations'', SubDoc ''org1''), (''firstName'', Value ''Ada'')]
          \<lparr>lean = Undefined, sort = (), pagination = False, page = Undefined,
            limit = Undefined, populate = [''registeredEvents''],
            select = [''-password'']\<rparr> of Inr m \<Rightarrow> m)) =
       [Val [(''firstName'', JStr ''Ada''), (''image'', JStr ''/u1.png''),
             (''password'', JStr ''hash1'')],
        Val [(''firstName'', JStr ''Bob''), (''image'', JNull),
             (''password'', JStr ''hash2'')]]
   \<and> organizationsMemberConnection id compiles_plain sample_paginate
        (sample_args\<lparr>where' := Val (empty_where\<lparr>firstName := Val ''Ada''\<rparr>),
                      first := Val 0\<rparr>) sample_context =
      (Resolves
        \<lparr>pageInfo =
           \<lparr>hasNextPage' = False, hasPreviousPage = False, totalPages' = 1,
              nextPageNo = Null, prevPageNo = Null, currPageNo = Val 1\<rparr>,
         edges =
           [[(''firstName'', JStr ''Ada''),
             (''image'', JStr ''https://api.example.com/u1.png''),
             (''password'', JNull)],
            [(''firstName'', JStr ''Bob''), (''image'', JNull),
             (''password'', JNull)]],
         aggregate_count = 2\<rparr>,
       [([(''joinedOrganizations'', SubDoc ''org1''), (''firstName'', Value ''Ada'')],
         \<lparr>lean = Undefined, sort = (), pagination = False, page = Undefined,
            limit = Undefined, populate = [''registeredEvents''],
            select = [''-password'']\<rparr>)])"
proof -
  have g: "getInputArg compiles_plain (Val (empty_where\<lparr>firstName := Val ''Ada''\<rparr>))
       = Inr [(''firstName'', Value ''Ada'')]"
    by (simp add: getInputArg_def getInputArg_blocks_def guarded_def empty_where_def)
  have d: "map doc' (docs (case sample_paginate
          [(''joinedOrganizations'', SubDoc ''org1''), (''firstName'', Value ''Ada'')]
          \<lparr>lean = Undefined, sort = (), pagination = False, page = Undefined,
            limit = Undefined, populate = [''registeredEvents''],
            select = [''-password'']\<rparr> of Inr m \<Rightarrow> m)) =
       [Val [(''firstName'', JStr ''Ada''), (''image'', JStr ''/u1.png''),
             (''password'', JStr ''hash1'')],
        Val [(''firstName'', JStr ''Bob''), (''image'', JNull),
             (''password'', JStr ''hash2'')]]"
    by (simp add: sample_paginate_def hydrated_docs_def)
  from zero_first_unpaged [of
      "sample_args\<lparr>where' := Val (empty_where\<lparr>firstName := Val ''Ada''\<rparr>), first := Val 0\<rparr>"
      id compiles_plain sample_paginate sample_context] g d
  show ?thesis
    by (simp add: sample_zero_first_filtered)
qed

text \<open>
  C7: whenever the resolver resolves, on either branch, every member of \<^verbatim>\<open>edges\<close>
  has \<^verbatim>\<open>password\<close> equal to \<^verbatim>\<open>null\<close>, whatever the documents of the store hold.
\<close>

theorem password_always_null:
  assumes "organizationsMemberConnection getSort compiles paginate args ctx = (Resolves c, calls)"
  shows "\<forall>e \<in> set (edges c). map_of e ''password'' = Some JNull"
proof -
  from resolves_edges [OF assms] obtain m :: usersModel
    where "edges c = map (map_paged ctx) (docs m) \<or> edges c = map (map_unpaged ctx) (docs m)"
    by blast
  then show ?thesis
    by (auto simp: map_paged_lookup map_unpaged_lookup)
qed

theorem password_always_null_witness:
  "map (\<lambda>user. map_of (props user) ''password'') lean_docs
      = [Some (JStr ''hash1''), Some (JStr ''hash2'')]
   \<and> map (\<lambda>e. map_of e ''password'')
        (edges (case fst (organizationsMemberConnection id compiles_plain sample_paginate
                     (sample_args\<lparr>first := Val 10, skip := Val 1\<rparr>) sample_context) of
                  Resolves c \<Rightarrow> c))
      = [Some JNull, Some JNull]
   \<and> map (\<lambda>e. map_of e ''password'')
        (edges (case fst (organizationsMemberConnection id compiles_plain sample_paginate
                     (sample_args\<lparr>first := Val 0, skip := Undefined\<rparr>) sample_context) of
                  Resolves c \<Rightarrow> c))
      = [Some JNull, Some JNull]"
  using password_always_null [OF sample_paged]
    password_always_null [OF sample_zero_first [of Undefined]]
  by (simp add: sample_paged sample_zero_first lean_docs_def)

text \<open>
  C8: whenever the resolver resolves, \<^verbatim>\<open>edges\<close> has one member for each document
  the store returned, in order; the member's \<^verbatim>\<open>image\<close> is \<^verbatim>\<open>apiRootUrl\<close> followed by
  the document's image when that is a non-empty string, and \<^verbatim>\<open>null\<close> when the
  document's image is \<^verbatim>\<open>null\<close>.
\<close>

theorem image_rewritten:
  assumes "organizationsMemberConnection getSort compiles paginate args ctx = (Resolves c, calls)"
  shows "\<exists>query options m.
           calls = [(query, options)] \<and> paginate query options = Inr m \<and>
           list_all2
             (\<lambda>user e.
                (\<forall>path. image' user = Val path \<and> path \<noteq> [] \<longrightarrow>
                   map_of e ''image'' = Some (JStr (apiRootUrl ctx @ path))) \<and>
                (image' user = Null \<longrightarrow> map_of e ''image'' = Some JNull))
             (docs m) (edges c)"
proof -
  from resolves_edges [OF assms] obtain query options m
    where c: "calls = [(query, options)]" "paginate query options = Inr m"
      and e: "edges c = map (map_paged ctx) (docs m) \<or> edges c = map (map_unpaged ctx) (docs m)"
    by blast
  from e have "list_all2
             (\<lambda>user e.
                (\<forall>path. image' user = Val path \<and> path \<noteq> [] \<longrightarrow>
                   map_of e ''image'' = Some (JStr (apiRootUrl ctx @ path))) \<and>
                (image' user = Null \<longrightarrow> map_of e ''image'' = Some JNull))
             (docs m) (edges c)"
    by (auto simp: list_all2_map2 list_all2_same map_paged_lookup map_unpaged_lookup image_url_def)
  with c show ?thesis by blast
qed

theorem image_rewritten_witness:
  "map image' lean_docs = [Val ''/u1.png'', Null]
   \<and> map image' hydrated_docs = [Val ''/u1.png'', Null]
   \<and> apiRootUrl sample_context = ''https://api.example.com''
   \<and> map (\<lambda>e. map_of e ''image'')
        (edges (case fst (organizationsMemberConnection id compiles_plain sample_paginate
                     (sample_args\<lparr>first := Val 10, skip := Val 1\<rparr>) sample_context) of
                  Resolves c \<Rightarrow> c))
      = [Some (JStr ''https://api.example.com/u1.png''), Some JNull]
   \<and> map (\<lambda>e. map_of e ''image'')
        (edges (case fst (organizationsMemberConnection id compiles_plain sample_paginate
                     (sample_args\<lparr>first := Val 0, skip := Undefined\<rparr>) sample_context) of
                  Resolves c \<Rightarrow> c))
      = [Some (JStr ''https://api.example.com/u1.png''), Some JNull]"
proof -
  have root: "apiRootUrl sample_context = ''https://api.example.com''"
    by (simp add: sample_context_def)
  from image_rewritten [OF sample_paged] image_rewritten [OF sample_zero_first [of Undefined]]
  show ?thesis
    by (simp add: sample_paged sample_zero_first lean_docs_def hydrated_docs_def root)
qed

section \<open>Several operators on one field\<close>


lemma sample_not_contains:
  "getInputArg compiles_plain
     (Val (empty_where\<lparr>firstName_not := Val ''John'', firstName_contains := Val ''oh''\<rparr>))
   = Inr [(''firstName'', Regex ''oh'' ''i'')]"
  by (simp add: getInputArg_def getInputArg_blocks_def guarded_def empty_where_def)

lemma sample_not_contains_given:
  "given FirstName (empty_where\<lparr>firstName_not := Val ''John'', firstName_contains := Val ''oh''\<rparr>)
   = [Ne ''John'', Regex ''oh'' ''i'']"
  by (simp add: given_def empty_where_def)

text \<open>
  C1: the operators a filter gives for one field are to apply together.  The
  resolver does not do so: every block writes the whole value of the field's key,
  so the block of a later operator replaces what an earlier one has written.
  With \<^verbatim>\<open>firstName_not = "John"\<close> and \<^verbatim>\<open>firstName_contains = "oh"\<close> the object built
  has the one entry of \<^verbatim>\<open>firstName_contains\<close>; a record with first name \<^verbatim>\<open>John\<close>
  passes it, and does not satisfy \<^verbatim>\<open>firstName_not\<close>.
\<close>

theorem same_field_operators_counterexample:
  "getInputArg compiles_plain
     (Val (empty_where\<lparr>firstName_not := Val ''John'', firstName_contains := Val ''oh''\<rparr>))
     = Inr [(''firstName'', Regex ''oh'' ''i'')]
   \<and> passes [(''firstName'', Regex ''oh'' ''i'')] (key_of FirstName) ''John'' = Some True
   \<and> given FirstName
        (empty_where\<lparr>firstName_not := Val ''John'', firstName_contains := Val ''oh''\<rparr>)
      = [Ne ''John'', Regex ''oh'' ''i'']
   \<and> holds (Ne ''John'') ''John'' = Some False"
  by (simp add: sample_not_contains sample_not_contains_given passes_def regex_eval)

section \<open>Prefix match\<close>

lemma sample_starts_with:
  "getInputArg compiles_plain (Val (empty_where\<lparr>firstName_starts_with := Val ''John''\<rparr>))
   = Inr [(''firstName'', RegExp ''^John'' [])]"
  by (simp add: getInputArg_def getInputArg_blocks_def guarded_def empty_where_def
      new_RegExp_def regex_eval)

text \<open>
  C2: a starts_with term is to match a prefix whatever its case.  The resolver
  does not do so: \<^verbatim>\<open>new RegExp("^" + term)\<close> has no flag, while the contains blocks
  of the same fields pass \<^verbatim>\<open>$options: "i"\<close>.  With \<^verbatim>\<open>firstName_starts_with = "John"\<close>
  the value \<^verbatim>\<open>johnson\<close>, whose prefix equals the term when case is ignored, does
  not pass.
\<close>

theorem starts_with_counterexample:
  "getInputArg compiles_plain (Val (empty_where\<lparr>firstName_starts_with := Val ''John''\<rparr>))
     = Inr [(''firstName'', RegExp ''^John'' [])]
   \<and> prefix (map to_lower ''John'') (map to_lower ''johnson'')
   \<and> passes [(''firstName'', RegExp ''^John'' [])] (key_of FirstName) ''johnson'' = Some False"
  by (simp add: sample_starts_with passes_def regex_eval)

section \<open>Equality\<close>

lemma sample_empty_eq:
  "getInputArg compiles_plain (Val (empty_where\<lparr>firstName := Val ''''\<rparr>)) = Inr []"
  by (simp add: getInputArg_def getInputArg_blocks_def guarded_def empty_where_def)

lemma sample_eq:
  "getInputArg compiles_plain (Val (empty_where\<lparr>firstName := Val ''Ada''\<rparr>))
   = Inr [(''firstName'', Value ''Ada'')]"
  by (simp add: getInputArg_def getInputArg_blocks_def guarded_def empty_where_def)

lemma given_no_Value:
  assumes "truthy_str (eq_of f w) = None"
  shows "Value v \<notin> set (given f w)"
  using assms by (auto simp: given_def split: option.splits)

lemma sample_empty_eq_other:
  "getInputArg compiles_plain (Val (empty_where\<lparr>firstName := Val '''', lastName := Val ''Smith''\<rparr>))
   = Inr [(''lastName'', Value ''Smith'')]"
  by (simp add: getInputArg_def getInputArg_blocks_def guarded_def empty_where_def)

text \<open>
  C4, as stated, fails on the empty string: \<^verbatim>\<open>firstName = ""\<close> is falsy, the block
  of line 144 is skipped and the object built has no entry for \<^verbatim>\<open>firstName\<close>.
\<close>

theorem eq_empty_string_counterexample:
  "eq_of FirstName (empty_where\<lparr>firstName := Val ''''\<rparr>) = Val ''''
   \<and> getInputArg compiles_plain (Val (empty_where\<lparr>firstName := Val ''''\<rparr>)) = Inr []
   \<and> map_of ([] :: obj) (key_of FirstName) = None"
  by (simp add: sample_empty_eq)

text \<open>
  C4, amended: let \<^verbatim>\<open>getInputArg\<close> return an object for a filter.  Where a field
  carries an eq operator with a value \<open>v\<close> that is not the empty string, and every
  other operator of that field is falsy (not, contains and starts_with absent,
  \<^verbatim>\<open>null\<close> or the empty string; in and not_in absent or \<^verbatim>\<open>null\<close>), the object holds
  the bare value \<open>v\<close> under the key of the field.  Where the eq value is the empty
  string, the object holds no bare value under that key.
\<close>

theorem eq_adds_equals:
  assumes "getInputArg compiles (Val w) = Inr q"
  shows "(\<forall>v. eq_of f w = Val v \<and> v \<noteq> []
              \<and> truthy_str (not_of f w) = None \<and> truthy_list (in_of f w) = None
              \<and> truthy_list (not_in_of f w) = None \<and> truthy_str (contains_of f w) = None
              \<and> truthy_str (starts_with_of f w) = None
            \<longrightarrow> map_of q (key_of f) = Some (Value v))
       \<and> (eq_of f w = Val [] \<longrightarrow> (\<forall>v. map_of q (key_of f) \<noteq> Some (Value v)))"
proof (intro conjI allI impI)
  fix v
  assume "eq_of f w = Val v \<and> v \<noteq> []
              \<and> truthy_str (not_of f w) = None \<and> truthy_list (in_of f w) = None
              \<and> truthy_list (not_in_of f w) = None \<and> truthy_str (contains_of f w) = None
              \<and> truthy_str (starts_with_of f w) = None"
  then have "given f w = [Value v]" by (simp add: given_def)
  with getInputArg_lookup [OF assms, of f] show "map_of q (key_of f) = Some (Value v)" by simp
next
  fix v
  assume "eq_of f w = Val []"
  then have n: "Value v \<notin> set (given f w)" by (simp add: given_no_Value)
  show "map_of q (key_of f) \<noteq> Some (Value v)"
  proof (cases "given f w = []")
    case True
    with getInputArg_lookup [OF assms, of f] show ?thesis by simp
  next
    case False
    then have "last (given f w) \<in> set (given f w)" by simp
    with n have "last (given f w) \<noteq> Value v" by metis
    with False getInputArg_lookup [OF assms, of f] show ?thesis by simp
  qed
qed

theorem eq_adds_equals_witness:
  "getInputArg compiles_plain (Val (empty_where\<lparr>firstName := Val ''Ada''\<rparr>))
       = Inr [(''firstName'', Value ''Ada'')]
   \<and> eq_of FirstName (empty_where\<lparr>firstName := Val ''Ada''\<rparr>) = Val ''Ada'' \<and> ''Ada'' \<noteq> []
   \<and> map_of [(''firstName'', Value ''Ada'')] (key_of FirstName) = Some (Value ''Ada'')
   \<and> getInputArg compiles_plain
        (Val (empty_where\<lparr>firstName := Val '''', lastName := Val ''Smith''\<rparr>))
       = Inr [(''lastName'', Value ''Smith'')]
   \<and> eq_of FirstName (empty_where\<lparr>firstName := Val '''', lastName := Val ''Smith''\<rparr>) = Val ''''
   \<and> map_of [(''lastName'', Value ''Smith'')] (key_of FirstName) = None"
  using eq_adds_equals [OF sample_eq, of FirstName]
    eq_adds_equals [OF sample_empty_eq_other, of FirstName]
  by (simp add: sample_eq sample_empty_eq_other)

section \<open>Empty sets\<close>








end
